theory Spec2Isabelle
  imports Main
begin

section \<open>The interaction store (pkg/storage/storage.go)\<close>

text \<open>
  Go strings are byte sequences, and so are HOL strings: \<open>length\<close> is Go's \<open>len\<close>.
  A function of the store either returns normally, returns a Go \<open>error\<close> value, or
  panics at run time. Both kinds of failure are values of \<open>error\<close>; \<open>is_panic\<close>
  tells them apart.
\<close>

datatype error =
    Err string
  | NilPointerPanic
  | SliceBoundsPanic

fun is_panic :: "error + 'a \<Rightarrow> bool" where
  "is_panic (Inl NilPointerPanic) = True"
| "is_panic (Inl SliceBoundsPanic) = True"
| "is_panic (Inl (Err msg)) = False"
| "is_panic (Inr v) = False"

fun is_error_value :: "error + 'a \<Rightarrow> bool" where
  "is_error_value (Inl (Err msg)) = True"
| "is_error_value (Inl NilPointerPanic) = False"
| "is_error_value (Inl SliceBoundsPanic) = False"
| "is_error_value (Inr v) = False"

text \<open>
  \<open>dataMutex\<close> has type \<open>*sync.Mutex\<close>: \<open>None\<close> is the nil pointer, which is what a
  struct literal that does not name the field leaves there. The model is sequential, so
  locking an allocated mutex just proceeds; locking through the nil pointer panics.
\<close>

datatype mutex = Mutex

record CorrelationData =
  Data :: "string list"
  dataMutex :: "mutex option"
  token :: string

definition Lock :: "mutex option \<Rightarrow> error + unit" where
  "Lock m = (case m of None \<Rightarrow> Inl NilPointerPanic | Some mu \<Rightarrow> Inr ())"

text \<open>
  The cache holds values of type \<open>interface{}\<close>; every read asserts the dynamic type
  \<open>*CorrelationData\<close>. The cache owns each record (no record is stored under two keys),
  so a write through the pointer is a write back under the same key. Expiry and
  eviction are steps of the cache library, outside the operations modelled here: a
  session is live when \<open>cache.Get\<close> finds it.
\<close>

datatype cache_value =
    CorrelationDataPtr CorrelationData
  | OtherValue

record Storage =
  cache :: "string \<rightharpoonup> cache_value"
  evictionTTL :: nat

subsection \<open>The zlib reader, as the store uses it\<close>

text \<open>
  The zlib package is a library, so its reader is a parameter \<open>z\<close> of the model: what
  reading one stored item does. \<open>ResetError\<close>: \<open>zlib.NewReader\<close> (or \<open>Reset\<close> on the reused
  reader) rejects the item. \<open>CopyError written\<close>: the reader accepts the header and
  \<open>io.Copy\<close> fails after \<open>written\<close> reached the buffer. \<open>Inflated out\<close>: \<open>io.Copy\<close>
  wrote \<open>out\<close> and succeeded.
\<close>

datatype zresult =
    ResetError
  | CopyError string
  | Inflated string

type_synonym zreader = "string \<Rightarrow> zresult"

text \<open>
  The loop of \<open>CorrelationData.GetInteractions\<close> over \<open>data\<close> from index \<open>i\<close>. The loop state
  is (reader is non-nil, contents of \<open>buf\<close>, \<open>results\<close>).
\<close>

fun decompress_loop :: "zreader \<Rightarrow> nat \<Rightarrow> string list \<Rightarrow> bool \<times> string \<times> string list
    \<Rightarrow> bool \<times> string \<times> string list" where
  "decompress_loop z i [] st = st"
| "decompress_loop z i (item # rest) (reader, buf, results) =
     (case z item of
        ResetError \<Rightarrow> decompress_loop z (Suc i) rest (reader, buf, results)
      | CopyError written \<Rightarrow> decompress_loop z (Suc i) rest (True, [], results)
      | Inflated out \<Rightarrow> decompress_loop z (Suc i) rest (True, [], results[i := buf @ out]))"

text \<open>Lines 60 to 91: the part of \<open>CorrelationData.GetInteractions\<close> after the unlock.\<close>

definition decompress :: "zreader \<Rightarrow> string list \<Rightarrow> string list" where
  "decompress z data =
     (if length data = 0 then []
      else (case decompress_loop z 0 data (False, [], replicate (length data) []) of
              (reader, buf, results) \<Rightarrow> results))"

text \<open>
  \<open>CorrelationData.GetInteractions\<close>: returns the record as the call leaves it, and the
  decompressed interactions.
\<close>

definition CorrelationData_GetInteractions ::
    "zreader \<Rightarrow> CorrelationData \<Rightarrow> error + (CorrelationData \<times> string list)" where
  "CorrelationData_GetInteractions z c =
     (case Lock (dataMutex c) of
        Inl e \<Rightarrow> Inl e
      | Inr u \<Rightarrow> Inr (c\<lparr>Data := []\<rparr>, decompress z (Data c)))"

subsection \<open>Operations of the store\<close>

definition New :: "nat \<Rightarrow> Storage" where
  "New ttl = \<lparr>cache = Map.empty, evictionTTL = ttl\<rparr>"

definition SetIDPublicKey :: "Storage \<Rightarrow> string \<Rightarrow> string \<Rightarrow> error + Storage" where
  "SetIDPublicKey s sessionID tok =
     (if cache s sessionID \<noteq> None then Inl (Err ''session-id provided is invalid'')
      else Inr (s\<lparr>cache := (cache s)(sessionID \<mapsto>
                  CorrelationDataPtr \<lparr>Data = [], dataMutex = None, token = tok\<rparr>)\<rparr>))"

definition SetID :: "Storage \<Rightarrow> string \<Rightarrow> error + Storage" where
  "SetID s ID =
     Inr (s\<lparr>cache := (cache s)(ID \<mapsto>
            CorrelationDataPtr \<lparr>Data = [], dataMutex = Some Mutex, token = []\<rparr>)\<rparr>)"

definition AddInteraction :: "Storage \<Rightarrow> string \<Rightarrow> string \<Rightarrow> error + Storage" where
  "AddInteraction s sessionID data =
     (case cache s sessionID of
        None \<Rightarrow> Inl (Err ''could not get session-id from cache'')
      | Some OtherValue \<Rightarrow> Inl (Err ''invalid session-id cache value found'')
      | Some (CorrelationDataPtr val) \<Rightarrow>
          (case Lock (dataMutex val) of
             Inl e \<Rightarrow> Inl e
           | Inr u \<Rightarrow> Inr (s\<lparr>cache := (cache s)(sessionID \<mapsto>
                         CorrelationDataPtr (val\<lparr>Data := Data val @ [data]\<rparr>))\<rparr>)))"

text \<open>
  \<open>AddInteractionWithId\<close> compresses before it appends. The zlib writer is a library:
  \<open>zw data\<close> is what \<open>gz.Write\<close> followed by \<open>gz.Close\<close> leaves in the buffer, or the error
  of \<open>gz.Write\<close>.
\<close>

type_synonym zwriter = "string \<Rightarrow> string + string"

definition AddInteractionWithId :: "zwriter \<Rightarrow> Storage \<Rightarrow> string \<Rightarrow> string \<Rightarrow> error + Storage" where
  "AddInteractionWithId zw s ident data =
     (case cache s ident of
        None \<Rightarrow> Inl (Err ''could not get session-id from cache'')
      | Some OtherValue \<Rightarrow> Inl (Err ''invalid session-id cache value found'')
      | Some (CorrelationDataPtr val) \<Rightarrow>
          (case zw data of
             Inl msg \<Rightarrow> Inl (Err msg)
           | Inr buffer \<Rightarrow>
               (case Lock (dataMutex val) of
                  Inl e \<Rightarrow> Inl e
                | Inr u \<Rightarrow> Inr (s\<lparr>cache := (cache s)(ident \<mapsto>
                              CorrelationDataPtr (val\<lparr>Data := Data val @ [buffer]\<rparr>))\<rparr>))))"

text \<open>
  \<open>Storage.GetInteractions\<close>: the result is the store after the call, the data, and the
  (always empty) AES key. The \<open>secret\<close> argument is not read.
\<close>

definition GetInteractions ::
    "zreader \<Rightarrow> Storage \<Rightarrow> string \<Rightarrow> string \<Rightarrow> error + (Storage \<times> string list \<times> string)" where
  "GetInteractions z s correlationID secret =
     (case cache s correlationID of
        None \<Rightarrow> Inl (Err ''could not get correlation-id from cache'')
      | Some OtherValue \<Rightarrow> Inl (Err ''invalid correlation-id cache value found'')
      | Some (CorrelationDataPtr val) \<Rightarrow>
          (case CorrelationData_GetInteractions z val of
             Inl e \<Rightarrow> Inl e
           | Inr (val', data) \<Rightarrow>
               Inr (s\<lparr>cache := (cache s)(correlationID \<mapsto> CorrelationDataPtr val')\<rparr>, data, [])))"

definition GetInteractionsWithId ::
    "zreader \<Rightarrow> Storage \<Rightarrow> string \<Rightarrow> error + (Storage \<times> string list)" where
  "GetInteractionsWithId z s ident =
     (case cache s ident of
        None \<Rightarrow> Inl (Err ''could not get id from cache'')
      | Some OtherValue \<Rightarrow> Inl (Err ''invalid id cache value found'')
      | Some (CorrelationDataPtr val) \<Rightarrow>
          (case CorrelationData_GetInteractions z val of
             Inl e \<Rightarrow> Inl e
           | Inr (val', data) \<Rightarrow>
               Inr (s\<lparr>cache := (cache s)(ident \<mapsto> CorrelationDataPtr val')\<rparr>, data)))"

text \<open>\<open>RemoveID\<close>: the \<open>token\<close> argument is not read (the comparison is commented out).\<close>

definition RemoveID :: "Storage \<Rightarrow> string \<Rightarrow> string \<Rightarrow> error + Storage" where
  "RemoveID s sessionID tok =
     (case cache s sessionID of
        None \<Rightarrow> Inl (Err ''could not get session-id from cache'')
      | Some OtherValue \<Rightarrow> Inl (Err ''invalid session-id cache value found'')
      | Some (CorrelationDataPtr val) \<Rightarrow>
          (case Lock (dataMutex val) of
             Inl e \<Rightarrow> Inl e
           | Inr u \<Rightarrow> Inr (s\<lparr>cache := (cache s)(sessionID := None)\<rparr>)))"

subsection \<open>An example codec\<close>

text \<open>
  A small codec with the shape of the zlib one, to evaluate the model on concrete
  inputs: two header bytes, the payload, one trailer byte. The reader rejects a wrong
  header at reset and a wrong trailer while copying, and inverts the writer.
\<close>

definition example_zwriter :: zwriter where
  "example_zwriter raw = Inr (''x^'' @ raw @ ''$'')"

definition example_zreader :: zreader where
  "example_zreader blob =
     (if take 2 blob \<noteq> ''x^'' then ResetError
      else if drop 2 blob = [] \<or> last blob \<noteq> CHR ''$'' then CopyError (drop 2 blob)
      else Inflated (butlast (drop 2 blob)))"

section \<open>The identifier protocol (pkg/server)\<close>

subsection \<open>Library functions of Go\<close>

text \<open>
  \<open>strings.Split(s, ".")\<close>: the labels between the dots, in order; a string without a
  dot (the empty one too) is a single label.
\<close>

fun strings_Split :: "string \<Rightarrow> string list" where
  "strings_Split [] = [[]]"
| "strings_Split (c # cs) =
     (if c = CHR ''.'' then [] # strings_Split cs
      else (case strings_Split cs of
              [] \<Rightarrow> [[c]]
            | p # ps \<Rightarrow> (c # p) # ps))"

fun strings_Join :: "string list \<Rightarrow> string \<Rightarrow> string" where
  "strings_Join [] sep = []"
| "strings_Join [p] sep = p"
| "strings_Join (p # q # ps) sep = p @ sep @ strings_Join (q # ps) sep"

text \<open>\<open>s[:n]\<close> panics when \<open>n\<close> exceeds the length of \<open>s\<close>.\<close>

definition slice_to :: "string \<Rightarrow> nat \<Rightarrow> error + string" where
  "slice_to s n = (if n \<le> length s then Inr (take n s) else Inl SliceBoundsPanic)"

text \<open>
  The conversion \<open>[]rune(s)\<close> decodes UTF-8: each step reads one code point of one to
  four bytes, and a byte that starts no well-formed sequence becomes U+FFFD and is
  stepped over alone. \<open>leading s0\<close> gives, for a leading byte above ASCII, the length of
  the sequence and the range of its second byte. Runes are natural numbers.
\<close>

definition RuneError :: nat where
  "RuneError = 0xFFFD"

definition leading :: "nat \<Rightarrow> (nat \<times> nat \<times> nat) option" where
  "leading s0 =
     (if 0xC2 \<le> s0 \<and> s0 \<le> 0xDF then Some (2, 0x80, 0xBF)
      else if s0 = 0xE0 then Some (3, 0xA0, 0xBF)
      else if 0xE1 \<le> s0 \<and> s0 \<le> 0xEC then Some (3, 0x80, 0xBF)
      else if s0 = 0xED then Some (3, 0x80, 0x9F)
      else if 0xEE \<le> s0 \<and> s0 \<le> 0xEF then Some (3, 0x80, 0xBF)
      else if s0 = 0xF0 then Some (4, 0x90, 0xBF)
      else if 0xF1 \<le> s0 \<and> s0 \<le> 0xF3 then Some (4, 0x80, 0xBF)
      else if s0 = 0xF4 then Some (4, 0x80, 0x8F)
      else None)"

definition continuation :: "nat \<Rightarrow> bool" where
  "continuation b = (0x80 \<le> b \<and> b \<le> 0xBF)"

text \<open>The first rune of a non-empty string and the number of bytes it takes.\<close>

definition decode_rune :: "string \<Rightarrow> nat \<times> nat" where
  "decode_rune s =
     (let n = length s; b = (\<lambda>k. (of_char (s ! k) :: nat)) in
      if n < 1 then (RuneError, 0)
      else if b 0 < 0x80 then (b 0, 1)
      else (case leading (b 0) of
              None \<Rightarrow> (RuneError, 1)
            | Some (sz, lo, hi) \<Rightarrow>
                if n < sz then (RuneError, 1)
                else if b 1 < lo \<or> hi < b 1 then (RuneError, 1)
                else if sz \<le> 2 then ((b 0 mod 0x20) * 0x40 + b 1 mod 0x40, 2)
                else if \<not> continuation (b 2) then (RuneError, 1)
                else if sz \<le> 3 then
                  ((b 0 mod 0x10) * 0x1000 + (b 1 mod 0x40) * 0x40 + b 2 mod 0x40, 3)
                else if \<not> continuation (b 3) then (RuneError, 1)
                else ((b 0 mod 8) * 0x40000 + (b 1 mod 0x40) * 0x1000
                        + (b 2 mod 0x40) * 0x40 + b 3 mod 0x40, 4)))"

fun runes_of_string :: "string \<Rightarrow> nat list" where
  "runes_of_string [] = []"
| "runes_of_string (c # cs) =
     (case decode_rune (c # cs) of
        (r, w) \<Rightarrow> r # runes_of_string (drop (w - 1) cs))"

text \<open>
  The conversion \<open>string(rns)\<close> encodes each rune in UTF-8; a surrogate or a value
  above U+10FFFF is encoded as U+FFFD.
\<close>

definition encode_rune :: "nat \<Rightarrow> string" where
  "encode_rune r =
     (if r < 0x80 then [char_of r]
      else if r < 0x800 then [char_of (0xC0 + r div 0x40), char_of (0x80 + r mod 0x40)]
      else if (0xD800 \<le> r \<and> r \<le> 0xDFFF) \<or> 0x10FFFF < r then
        [char_of (0xEF::nat), char_of (0xBF::nat), char_of (0xBD::nat)]
      else if r < 0x10000 then
        [char_of (0xE0 + r div 0x1000), char_of (0x80 + (r div 0x40) mod 0x40),
         char_of (0x80 + r mod 0x40)]
      else
        [char_of (0xF0 + r div 0x40000), char_of (0x80 + (r div 0x1000) mod 0x40),
         char_of (0x80 + (r div 0x40) mod 0x40), char_of (0x80 + r mod 0x40)])"

definition string_of_runes :: "nat list \<Rightarrow> string" where
  "string_of_runes rns = concat (map encode_rune rns)"

subsection \<open>URLReflection (pkg/server/server.go)\<close>

text \<open>The scan over the labels: \<open>randomID\<close> is overwritten at every label of 33 bytes.\<close>

fun reflection_scan :: "string list \<Rightarrow> string \<Rightarrow> string" where
  "reflection_scan [] randomID = randomID"
| "reflection_scan (part # rest) randomID =
     reflection_scan rest (if length part = 33 then part else randomID)"

text \<open>The swap loop over the rune slice, with Go's signed indices.\<close>

function reverse_loop :: "nat list \<Rightarrow> int \<Rightarrow> int \<Rightarrow> nat list" where
  "reverse_loop rns i j =
     (if i < j then
        reverse_loop (rns[nat i := rns ! nat j, nat j := rns ! nat i]) (i + 1) (j - 1)
      else rns)"
  by pat_completeness auto
termination
  by (relation "measure (\<lambda>(rns, i, j). nat (j - i))") auto

declare reverse_loop.simps [simp del]

definition URLReflection :: "string \<Rightarrow> string" where
  "URLReflection URL =
     (let parts = strings_Split URL;
          randomID = reflection_scan parts []
      in if randomID = [] then []
         else (let rns = runes_of_string randomID
               in string_of_runes (reverse_loop rns 0 (int (length rns) - 1))))"

subsection \<open>The extraction in HTTPServer.logger\<close>

text \<open>
  The loop over \<open>parts\<close> from index \<open>i\<close>; the loop state is (\<open>uniqueID\<close>, \<open>fullID\<close>).
\<close>

fun logger_scan :: "string list \<Rightarrow> nat \<Rightarrow> string list \<Rightarrow> string \<times> string \<Rightarrow> string \<times> string" where
  "logger_scan parts i [] ids = ids"
| "logger_scan parts i (part # rest) (uniqueID, fullID) =
     logger_scan parts (Suc i) rest
       (if length part = 33 then
          (part, if i + 1 \<le> length parts then strings_Join (take (i + 1) parts) ''.'' else part)
        else (uniqueID, fullID))"

definition logger_ids :: "string \<Rightarrow> string \<times> string" where
  "logger_ids host = (let parts = strings_Split host in logger_scan parts 0 parts ([], []))"

text \<open>
  What the logger derives from the host: nothing when \<open>uniqueID\<close> is empty, otherwise
  (\<open>correlationID\<close>, \<open>uniqueID\<close>, \<open>fullID\<close>) with \<open>correlationID = uniqueID[:20]\<close>.
\<close>

definition logger_extract :: "string \<Rightarrow> error + (string \<times> string \<times> string) option" where
  "logger_extract host =
     (case logger_ids host of
        (uniqueID, fullID) \<Rightarrow>
          if uniqueID \<noteq> [] then
            (case slice_to uniqueID 20 of
               Inl e \<Rightarrow> Inl e
             | Inr correlationID \<Rightarrow> Inr (Some (correlationID, uniqueID, fullID)))
          else Inr None)"

section \<open>The HTTP boundary (HTTPServer)\<close>

text \<open>
  Of \<open>Options\<close>, the fields that the HTTP server reads; the store it points to is
  passed to the handlers as their state.
\<close>

record Options =
  Domain :: string
  Auth :: bool
  Token :: string
  RootTLD :: bool
  OriginURL :: string

text \<open>
  A request: method, path, and the header as a map from canonical names to values.
  \<open>Header_Get\<close> is \<open>req.Header.Get\<close>: the empty string when the header is absent.
\<close>

record Request =
  Method :: string
  Path :: string
  Header :: "string \<rightharpoonup> string"

definition Header_Get :: "(string \<rightharpoonup> string) \<Rightarrow> string \<Rightarrow> string" where
  "Header_Get h k = (case h k of None \<Rightarrow> [] | Some v \<Rightarrow> v)"

text \<open>
  The response writer: the header map, the status once \<open>WriteHeader\<close> was called, and
  the bytes written. A second \<open>WriteHeader\<close> is ignored; a response whose status was
  never written goes out as 200.
\<close>

record ResponseWriter =
  wheader :: "string \<rightharpoonup> string"
  wstatus :: "nat option"
  wbody :: string

definition new_writer :: ResponseWriter where
  "new_writer = \<lparr>wheader = Map.empty, wstatus = None, wbody = []\<rparr>"

definition Header_Set :: "ResponseWriter \<Rightarrow> string \<Rightarrow> string \<Rightarrow> ResponseWriter" where
  "Header_Set w k v = w\<lparr>wheader := (wheader w)(k \<mapsto> v)\<rparr>"

definition WriteHeader :: "ResponseWriter \<Rightarrow> nat \<Rightarrow> ResponseWriter" where
  "WriteHeader w code = (case wstatus w of None \<Rightarrow> w\<lparr>wstatus := Some code\<rparr> | Some c \<Rightarrow> w)"

definition response_status :: "ResponseWriter \<Rightarrow> nat" where
  "response_status w = (case wstatus w of None \<Rightarrow> 200 | Some c \<Rightarrow> c)"

text \<open>
  A handler reads the request and changes the store and the response writer, or
  panics.
\<close>

type_synonym handler = "Storage \<Rightarrow> ResponseWriter \<Rightarrow> Request \<Rightarrow> error + (Storage \<times> ResponseWriter)"

definition checkToken :: "Options \<Rightarrow> Request \<Rightarrow> bool" where
  "checkToken options req =
     (\<not> Auth options \<or> Auth options \<and> Token options = Header_Get (Header req) ''Authorization'')"

definition authMiddleware :: "Options \<Rightarrow> handler \<Rightarrow> handler" where
  "authMiddleware options next st w req =
     (if \<not> checkToken options req then Inr (st, WriteHeader w 401)
      else next st w req)"

definition cors_headers :: "Options \<Rightarrow> ResponseWriter \<Rightarrow> ResponseWriter" where
  "cors_headers options w =
     Header_Set
       (Header_Set
          (Header_Set w ''Access-Control-Allow-Origin'' (OriginURL options))
          ''Access-Control-Allow-Credentials'' ''true'')
       ''Access-Control-Allow-Headers'' ''Content-Type, Authorization''"

definition corsMiddleware :: "Options \<Rightarrow> handler \<Rightarrow> handler" where
  "corsMiddleware options next st w req =
     (if Method req = ''OPTIONS'' then Inr (st, WriteHeader (cors_headers options w) 204)
      else next st (cors_headers options w) req)"

text \<open>
  The routes of \<open>NewHTTPServer\<close>. The handlers at the end of the chains are
  parameters (\<open>defaultRoute\<close> is the logger around \<open>defaultHandler\<close>): the results
  below hold whatever they do with the store. The mux sends a request to the handler
  registered for exactly its path, and any other path to the default route.
\<close>

record Handlers =
  defaultRoute :: handler
  registerHandler :: handler
  deregisterHandler :: handler
  pollHandler :: handler
  metricsHandler :: handler

definition router :: "Options \<Rightarrow> Handlers \<Rightarrow> handler" where
  "router options hs st w req =
     (if Path req = ''/register'' then
        corsMiddleware options (authMiddleware options (registerHandler hs)) st w req
      else if Path req = ''/deregister'' then
        corsMiddleware options (authMiddleware options (deregisterHandler hs)) st w req
      else if Path req = ''/poll'' then
        corsMiddleware options (authMiddleware options (pollHandler hs)) st w req
      else if Path req = ''/metrics'' then
        corsMiddleware options (authMiddleware options (metricsHandler hs)) st w req
      else defaultRoute hs st w req)"

text \<open>
  A handler for the evaluated examples: it registers the session named by the
  \<open>Session\<close> header and answers 200 or 400.
\<close>

definition example_handler :: handler where
  "example_handler st w req =
     (case SetIDPublicKey st (Header_Get (Header req) ''Session'') [] of
        Inl e \<Rightarrow> Inr (st, WriteHeader w 400)
      | Inr st' \<Rightarrow> Inr (st', WriteHeader w 200))"

definition example_handlers :: Handlers where
  "example_handlers =
     \<lparr>defaultRoute = example_handler, registerHandler = example_handler,
      deregisterHandler = example_handler, pollHandler = example_handler,
      metricsHandler = example_handler\<rparr>"

section \<open>Properties of the store\<close>

lemma decompress_loop_length:
  "length (snd (snd (decompress_loop z i data (reader, buf, results)))) = length results"
  by (induction data arbitrary: i reader buf results) (auto split: zresult.splits)

lemma decompress_loop_nth:
  "i + length data \<le> length results \<Longrightarrow> k < length results \<Longrightarrow>
   snd (snd (decompress_loop z i data (reader, [], results))) ! k =
     (if i \<le> k \<and> k < i + length data then
        (case z (data ! (k - i)) of Inflated out \<Rightarrow> out | _ \<Rightarrow> results ! k)
      else results ! k)"
proof (induction data arbitrary: i reader results)
  case Nil
  then show ?case by auto
next
  case (Cons item rest)
  show ?case
  proof (cases "z item")
    case ResetError
    with Cons.prems Cons.IH [of "Suc i" results reader] show ?thesis
      by (auto simp: nth_Cons' Suc_diff_le split: zresult.splits)
  next
    case (CopyError written)
    with Cons.prems Cons.IH [of "Suc i" results True] show ?thesis
      by (auto simp: nth_Cons' Suc_diff_le split: zresult.splits)
  next
    case (Inflated out)
    with Cons.prems Cons.IH [of "Suc i" "results[i := out]" True] show ?thesis
      by (auto simp: nth_Cons' Suc_diff_le nth_list_update split: zresult.splits)
  qed
qed

lemma decompress_length: "length (decompress z data) = length data"
  using decompress_loop_length [of z 0 data False "[]" "replicate (length data) []"]
  by (auto simp: decompress_def split: prod.splits)

lemma decompress_nth:
  assumes "k < length data"
  shows "decompress z data ! k = (case z (data ! k) of Inflated out \<Rightarrow> out | _ \<Rightarrow> [])"
  using assms decompress_loop_nth [of 0 data "replicate (length data) []" k z False]
  by (auto simp: decompress_def split: prod.splits zresult.splits)

lemma Lock_Some: "Lock (Some mu) = Inr ()"
  by (simp add: Lock_def)

lemma Lock_None: "Lock None = Inl NilPointerPanic"
  by (simp add: Lock_def)

lemma GetInteractions_locked:
  assumes "cache s ident = Some (CorrelationDataPtr val)" and "dataMutex val = Some mu"
  shows "GetInteractions z s ident secret =
           Inr (s\<lparr>cache := (cache s)(ident \<mapsto> CorrelationDataPtr (val\<lparr>Data := []\<rparr>))\<rparr>,
                decompress z (Data val), [])"
  using assms by (simp add: GetInteractions_def CorrelationData_GetInteractions_def Lock_Some)

text \<open>The example reader inverts the example writer.\<close>

lemma example_codec_roundtrip:
  "example_zwriter raw = Inr (''x^'' @ raw @ ''$'') \<and>
   example_zreader (''x^'' @ raw @ ''$'') = Inflated raw"
  by (simp add: example_zwriter_def example_zreader_def)

text \<open>
  On a record that holds a lock, a drain changes the log of that record only, and a
  second drain returns the empty sequence.
\<close>

lemma GetInteractions_frame_locked:
  assumes "cache s ident = Some (CorrelationDataPtr val)" and "dataMutex val = Some mu"
  shows "\<exists>s'. GetInteractions z s ident secret = Inr (s', decompress z (Data val), []) \<and>
           cache s' ident = Some (CorrelationDataPtr (val\<lparr>Data := []\<rparr>)) \<and>
           (\<forall>k. k \<noteq> ident \<longrightarrow> cache s' k = cache s k) \<and>
           evictionTTL s' = evictionTTL s \<and>
           GetInteractions z s' ident secret = Inr (s', [], [])"
proof -
  let ?s' = "s\<lparr>cache := (cache s)(ident \<mapsto> CorrelationDataPtr (val\<lparr>Data := []\<rparr>))\<rparr>"
  have first: "GetInteractions z s ident secret = Inr (?s', decompress z (Data val), [])"
    using assms by (rule GetInteractions_locked)
  have "cache ?s' ident = Some (CorrelationDataPtr (val\<lparr>Data := []\<rparr>))"
    and "dataMutex (val\<lparr>Data := []\<rparr>) = Some mu"
    using assms by simp_all
  then have "GetInteractions z ?s' ident secret =
      Inr (?s'\<lparr>cache := (cache ?s')(ident \<mapsto> CorrelationDataPtr (val\<lparr>Data := [], Data := []\<rparr>))\<rparr>,
           decompress z (Data (val\<lparr>Data := []\<rparr>)), [])"
    by (rule GetInteractions_locked)
  then have second: "GetInteractions z ?s' ident secret = Inr (?s', [], [])"
    by (simp add: decompress_def)
  from first second show ?thesis
    by (intro exI [of _ ?s']) simp
qed

text \<open>
  The bucket path compresses: what \<open>AddInteractionWithId\<close> appends comes back from the
  drain, for a writer and a reader that invert each other on the payload.
\<close>

lemma AddInteractionWithId_roundtrip:
  assumes "cache s ident = Some (CorrelationDataPtr val)" and "dataMutex val = Some mu"
    and "Data val = []" and "zw payload = Inr blob" and "z blob = Inflated payload"
  shows "\<exists>s' s''. AddInteractionWithId zw s ident payload = Inr s' \<and>
           GetInteractionsWithId z s' ident = Inr (s'', [payload])"
  using assms
  by (simp add: AddInteractionWithId_def GetInteractionsWithId_def
      CorrelationData_GetInteractions_def Lock_Some decompress_def)

text \<open>An append to an id that is not in the store is an error, not a panic.\<close>

lemma AddInteraction_unknown:
  "cache s sessionID = None \<Longrightarrow> is_error_value (AddInteraction s sessionID data)"
  by (simp add: AddInteraction_def)

text \<open>
  C9. Decompression of a batch is item by item: the result has the length of the stored
  sequence; position \<open>k\<close> holds what item \<open>k\<close> inflates to, or the empty string when
  the reader rejects item \<open>k\<close> or the copy fails on it, whatever the other items are;
  and this is the sequence a drain of a locked record returns.
\<close>

theorem decompress_per_item:
  "length (decompress z data) = length data \<and>
   (\<forall>k < length data.
      decompress z data ! k = (case z (data ! k) of Inflated out \<Rightarrow> out | _ \<Rightarrow> [])) \<and>
   (\<forall>s ident secret val mu.
      cache s ident = Some (CorrelationDataPtr val) \<and> dataMutex val = Some mu \<longrightarrow>
      (\<exists>s'. GetInteractions z s ident secret = Inr (s', decompress z (Data val), [])))"
  by (simp add: decompress_length decompress_nth GetInteractions_locked)

text \<open>A batch of four items, the second and third of them corrupt.\<close>

theorem decompress_per_item_witness:
  "length (decompress example_zreader [''x^first$'', ''{broken'', ''x^cut'', ''x^last$'']) = 4 \<and>
   decompress example_zreader [''x^first$'', ''{broken'', ''x^cut'', ''x^last$'']
     = [''first'', [], [], ''last''] \<and>
   (\<exists>s'. GetInteractions example_zreader
       \<lparr>cache = [''b'' \<mapsto> CorrelationDataPtr
           \<lparr>Data = [''x^first$'', ''{broken''], dataMutex = Some Mutex, token = []\<rparr>],
        evictionTTL = 0\<rparr> ''b'' ''s''
      = Inr (s', [''first'', []], []))"
proof -
  let ?d = "[''x^first$'', ''{broken'', ''x^cut'', ''x^last$'']"
  let ?val = "\<lparr>Data = [''x^first$'', ''{broken''], dataMutex = Some Mutex, token = []\<rparr>"
  let ?s = "\<lparr>cache = [''b'' \<mapsto> CorrelationDataPtr ?val], evictionTTL = 0\<rparr>"
  note th = decompress_per_item [of example_zreader ?d]
  have len: "length (decompress example_zreader ?d) = 4"
    using th by simp
  have nth: "\<And>k. k < 4 \<Longrightarrow> decompress example_zreader ?d ! k =
      (case example_zreader (?d ! k) of Inflated out \<Rightarrow> out | _ \<Rightarrow> [])"
    using th by simp
  have "decompress example_zreader ?d = [''first'', [], [], ''last'']"
    by (rule nth_equalityI) (auto simp: len nth less_Suc_eq example_zreader_def numeral_eq_Suc)
  moreover have "\<exists>s'. GetInteractions example_zreader ?s ''b'' ''s''
      = Inr (s', decompress example_zreader (Data ?val), [])"
  proof -
    have pre: "cache ?s ''b'' = Some (CorrelationDataPtr ?val) \<and> dataMutex ?val = Some Mutex"
      by simp
    from decompress_per_item [of example_zreader "Data ?val"] pre show ?thesis
      by blast
  qed
  moreover have "decompress example_zreader (Data ?val) = [''first'', []]"
    by (simp add: decompress_def example_zreader_def)
  ultimately show ?thesis using len by simp
qed

text \<open>
  C7. \<open>SetIDPublicKey\<close> returns an error exactly when the session id is already in the
  cache, and never panics. On a fresh id it succeeds, the new record has an empty log
  and the given secret, no other key changes, and registering the same id again is
  rejected.
\<close>

theorem SetIDPublicKey_spec:
  "(is_error_value (SetIDPublicKey s sessionID tok) \<longleftrightarrow> cache s sessionID \<noteq> None) \<and>
   \<not> is_panic (SetIDPublicKey s sessionID tok) \<and>
   (cache s sessionID = None \<longrightarrow>
      (\<exists>s'. SetIDPublicKey s sessionID tok = Inr s' \<and>
            (\<exists>c. cache s' sessionID = Some (CorrelationDataPtr c) \<and> Data c = [] \<and> token c = tok) \<and>
            (\<forall>k. k \<noteq> sessionID \<longrightarrow> cache s' k = cache s k) \<and>
            (\<forall>tok'. is_error_value (SetIDPublicKey s' sessionID tok'))))"
  by (simp add: SetIDPublicKey_def)

text \<open>Registration of a fresh id in a new store.\<close>

theorem SetIDPublicKey_spec_witness:
  "cache (New 60) ''c5b0n3k2vtc0000a1b2c'' = None \<and>
   \<not> is_error_value (SetIDPublicKey (New 60) ''c5b0n3k2vtc0000a1b2c'' ''s3cret'') \<and>
   (\<exists>s'. SetIDPublicKey (New 60) ''c5b0n3k2vtc0000a1b2c'' ''s3cret'' = Inr s' \<and>
         (\<exists>c. cache s' ''c5b0n3k2vtc0000a1b2c'' = Some (CorrelationDataPtr c) \<and> Data c = [] \<and>
              token c = ''s3cret'') \<and>
         is_error_value (SetIDPublicKey s' ''c5b0n3k2vtc0000a1b2c'' ''other''))"
proof -
  have fresh: "cache (New 60) ''c5b0n3k2vtc0000a1b2c'' = None"
    by (simp add: New_def)
  show ?thesis
    using fresh SetIDPublicKey_spec [of "New 60" "''c5b0n3k2vtc0000a1b2c''" "''s3cret''"]
    by auto
qed

text \<open>
  C2. The specification has \<open>AddInteraction\<close> on a session made by \<open>SetIDPublicKey\<close>
  complete without a fault. \<open>SetIDPublicKey\<close> leaves \<open>dataMutex\<close> nil (\<open>SetID\<close>
  allocates it), so the \<open>Lock\<close> in \<open>AddInteraction\<close> dereferences a nil pointer: on
  every fresh id, registration succeeds and the append that follows panics.
\<close>

theorem AddInteraction_after_SetIDPublicKey:
  "cache s sessionID = None \<Longrightarrow>
   \<exists>s'. SetIDPublicKey s sessionID tok = Inr s' \<and>
        AddInteraction s' sessionID data = Inl NilPointerPanic \<and>
        is_panic (AddInteraction s' sessionID data)"
  by (simp add: SetIDPublicKey_def AddInteraction_def Lock_None)

text \<open>Registration and one append in a new store.\<close>

theorem AddInteraction_after_SetIDPublicKey_witness:
  "\<exists>s'. SetIDPublicKey (New 60) ''c5b0n3k2vtc0000a1b2c'' ''s3cret'' = Inr s' \<and>
        AddInteraction s' ''c5b0n3k2vtc0000a1b2c'' ''{}'' = Inl NilPointerPanic"
proof -
  have fresh: "cache (New 60) ''c5b0n3k2vtc0000a1b2c'' = None"
    by (simp add: New_def)
  show ?thesis
    using AddInteraction_after_SetIDPublicKey [OF fresh, of "''s3cret''" "''{}''"] by blast
qed

text \<open>
  C8. The specification has a drain of a live session with an empty log return the
  empty sequence and keep the record. On a session made by \<open>SetIDPublicKey\<close> the record
  exists with an empty log, and the drain panics at the \<open>Lock\<close> of the nil
  \<open>dataMutex\<close>.
\<close>

theorem GetInteractions_after_SetIDPublicKey:
  "cache s sessionID = None \<Longrightarrow>
   \<exists>s'. SetIDPublicKey s sessionID tok = Inr s' \<and>
        (\<exists>c. cache s' sessionID = Some (CorrelationDataPtr c) \<and> Data c = []) \<and>
        GetInteractions z s' sessionID secret = Inl NilPointerPanic"
  by (simp add: SetIDPublicKey_def GetInteractions_def CorrelationData_GetInteractions_def
      Lock_None)

text \<open>Registration and one drain in a new store.\<close>

theorem GetInteractions_after_SetIDPublicKey_witness:
  "\<exists>s'. SetIDPublicKey (New 60) ''c5b0n3k2vtc0000a1b2c'' ''s3cret'' = Inr s' \<and>
        GetInteractions example_zreader s' ''c5b0n3k2vtc0000a1b2c'' ''s3cret''
          = Inl NilPointerPanic"
proof -
  have fresh: "cache (New 60) ''c5b0n3k2vtc0000a1b2c'' = None"
    by (simp add: New_def)
  show ?thesis
    using GetInteractions_after_SetIDPublicKey [OF fresh, of "''s3cret''" example_zreader "''s3cret''"]
    by blast
qed

text \<open>
  C1. The specification has an append followed by a drain give back the payload.
  \<open>AddInteraction\<close> appends the payload as it is (\<open>AddInteractionWithId\<close> compresses
  it first), and the drain inflates what is stored: on a locked record with an empty
  log, the drained element is what the reader makes of the raw payload.
\<close>

theorem AddInteraction_appends_uncompressed:
  "cache s sessionID = Some (CorrelationDataPtr val) \<Longrightarrow> dataMutex val = Some mu \<Longrightarrow>
   Data val = [] \<Longrightarrow>
   \<exists>s' s''. AddInteraction s sessionID payload = Inr s' \<and>
     (\<exists>c. cache s' sessionID = Some (CorrelationDataPtr c) \<and> Data c = [payload]) \<and>
     GetInteractions z s' sessionID secret =
       Inr (s'', [case z payload of Inflated out \<Rightarrow> out | _ \<Rightarrow> []], [])"
  by (simp add: AddInteraction_def GetInteractions_def CorrelationData_GetInteractions_def
      Lock_Some decompress_def split: zresult.splits)

text \<open>
  A JSON payload appended to a bucket made by \<open>SetID\<close>: the example reader rejects the
  raw payload and the drain returns the empty string for it, although the reader
  inverts the writer on this payload.
\<close>

theorem AddInteraction_appends_uncompressed_witness:
  "\<exists>s s' s''. SetID (New 60) ''bucket'' = Inr s \<and>
     AddInteraction s ''bucket'' ''{\"protocol\":\"http\"}'' = Inr s' \<and>
     GetInteractions example_zreader s' ''bucket'' ''secret'' = Inr (s'', [[]], []) \<and>
     example_zreader (projr (example_zwriter ''{\"protocol\":\"http\"}''))
       = Inflated ''{\"protocol\":\"http\"}''"
proof -
  let ?val = "\<lparr>Data = [], dataMutex = Some Mutex, token = []\<rparr>"
  let ?s = "(New 60)\<lparr>cache := (cache (New 60))(''bucket'' \<mapsto> CorrelationDataPtr ?val)\<rparr>"
  have a: "cache ?s ''bucket'' = Some (CorrelationDataPtr ?val)" by simp
  have b: "dataMutex ?val = Some Mutex" by simp
  have c: "Data ?val = []" by simp
  have z: "example_zreader ''{\"protocol\":\"http\"}'' = ResetError"
    by (simp add: example_zreader_def)
  have rt: "example_zreader (projr (example_zwriter ''{\"protocol\":\"http\"}''))
       = Inflated ''{\"protocol\":\"http\"}''"
    by (simp add: example_zreader_def example_zwriter_def)
  from AddInteraction_appends_uncompressed [OF a b c, of "''{\"protocol\":\"http\"}''" example_zreader "''secret''"]
  show ?thesis using rt by (auto simp: SetID_def z)
qed

text \<open>
  C3, as amended. \<open>RemoveID\<close> does not read the supplied secret: its outcome is the same
  for every secret. On a live session whose record holds an allocated lock it
  succeeds and deletes the record, whether or not the secret is the stored one; on an
  id that is not in the store it returns an error.
\<close>

theorem RemoveID_ignores_secret:
  "RemoveID s sessionID tok = RemoveID s sessionID tok' \<and>
   (\<forall>val mu. cache s sessionID = Some (CorrelationDataPtr val) \<and> dataMutex val = Some mu \<longrightarrow>
      RemoveID s sessionID tok = Inr (s\<lparr>cache := (cache s)(sessionID := None)\<rparr>)) \<and>
   (cache s sessionID = None \<longrightarrow> is_error_value (RemoveID s sessionID tok))"
  by (simp add: RemoveID_def Lock_Some)

text \<open>A record with a stored secret and a pending item, removed with another secret.\<close>

theorem RemoveID_ignores_secret_witness:
  "RemoveID \<lparr>cache = [''sess'' \<mapsto> CorrelationDataPtr
       \<lparr>Data = [''x^pending$''], dataMutex = Some Mutex, token = ''good''\<rparr>], evictionTTL = 60\<rparr>
     ''sess'' ''bad'' = Inr (New 60) \<and>
   is_error_value (RemoveID (New 60) ''sess'' ''good'')"
proof -
  let ?val = "\<lparr>Data = [''x^pending$''], dataMutex = Some Mutex, token = ''good''\<rparr>"
  let ?s = "\<lparr>cache = [''sess'' \<mapsto> CorrelationDataPtr ?val], evictionTTL = 60\<rparr>"
  have pre: "cache ?s ''sess'' = Some (CorrelationDataPtr ?val) \<and> dataMutex ?val = Some Mutex"
    by simp
  from RemoveID_ignores_secret [of ?s "''sess''" "''bad''" "''good''"] pre
  have "RemoveID ?s ''sess'' ''bad'' = Inr (?s\<lparr>cache := (cache ?s)(''sess'' := None)\<rparr>)"
    by blast
  moreover have "cache (New 60) ''sess'' = None"
    by (simp add: New_def)
  with RemoveID_ignores_secret [of "New 60" "''sess''" "''good''" "''good''"]
  have "is_error_value (RemoveID (New 60) ''sess'' ''good'')"
    by blast
  ultimately show ?thesis
    by (simp add: New_def)
qed

text \<open>
  C3 as the specification states it fails: the record that \<open>SetID\<close> makes stores the
  empty secret, and \<open>RemoveID\<close> with the secret \<open>wrong\<close> returns no error and deletes it; so does
  \<open>RemoveID\<close> with the secret \<open>bad\<close> on a locked record that stores \<open>good\<close>.
\<close>

theorem RemoveID_mismatch_counterexample:
  "SetID (New 60) ''bucket'' =
     Inr \<lparr>cache = [''bucket'' \<mapsto> CorrelationDataPtr
            \<lparr>Data = [], dataMutex = Some Mutex, token = []\<rparr>], evictionTTL = 60\<rparr> \<and>
   RemoveID \<lparr>cache = [''bucket'' \<mapsto> CorrelationDataPtr
       \<lparr>Data = [], dataMutex = Some Mutex, token = []\<rparr>], evictionTTL = 60\<rparr>
     ''bucket'' ''wrong'' = Inr (New 60) \<and>
   RemoveID \<lparr>cache = [''sess'' \<mapsto> CorrelationDataPtr
       \<lparr>Data = [], dataMutex = Some Mutex, token = ''good''\<rparr>], evictionTTL = 60\<rparr>
     ''sess'' ''bad'' = Inr (New 60)"
  by (simp add: SetID_def RemoveID_def New_def Lock_def)

section \<open>Properties of the identifier protocol\<close>

text \<open>The swap loop reverses the slice.\<close>

lemma reverse_loop_nth:
  "0 \<le> i \<Longrightarrow> j < int (length rns) \<Longrightarrow>
   length (reverse_loop rns i j) = length rns \<and>
   (\<forall>k < length rns. reverse_loop rns i j ! k =
      (if i \<le> int k \<and> int k \<le> j then rns ! nat (i + j - int k) else rns ! k))"
proof (induction rns i j rule: reverse_loop.induct)
  case (1 rns i j)
  note bnd = "1.prems"
  show ?case
  proof (cases "i < j")
    case False
    then have "\<And>k. i \<le> int k \<and> int k \<le> j \<Longrightarrow> nat (i + j - int k) = k"
      by auto
    moreover from False have "reverse_loop rns i j = rns"
      by (subst reverse_loop.simps) simp
    ultimately show ?thesis
      by auto
  next
    case True
    let ?rns' = "rns[nat i := rns ! nat j, nat j := rns ! nat i]"
    have len: "length ?rns' = length rns" by simp
    from True bnd have pre: "0 \<le> i + 1" "j - 1 < int (length ?rns')" by auto
    note IH = "1.IH" [OF True pre]
    have unfold: "reverse_loop rns i j = reverse_loop ?rns' (i + 1) (j - 1)"
      using True by (subst reverse_loop.simps) simp
    show ?thesis
    proof (intro conjI allI impI)
      show "length (reverse_loop rns i j) = length rns"
        using IH unfold by simp
    next
      fix k assume k: "k < length rns"
      with IH have step: "reverse_loop ?rns' (i + 1) (j - 1) ! k =
          (if i + 1 \<le> int k \<and> int k \<le> j - 1 then ?rns' ! nat (i + 1 + (j - 1) - int k)
           else ?rns' ! k)"
        by simp
      from True bnd k have bounds: "nat i < length rns" "nat j < length rns" "nat i \<noteq> nat j"
        by auto
      show "reverse_loop rns i j ! k =
          (if i \<le> int k \<and> int k \<le> j then rns ! nat (i + j - int k) else rns ! k)"
      proof (cases "i + 1 \<le> int k \<and> int k \<le> j - 1")
        case inner: True
        then have "nat (i + 1 + (j - 1) - int k) \<noteq> nat i" "nat (i + 1 + (j - 1) - int k) \<noteq> nat j"
          using bnd by auto
        with inner step unfold show ?thesis
          by (simp add: algebra_simps)
      next
        case outer: False
        consider (lo) "int k = i" | (hi) "int k = j" | (out) "int k < i \<or> j < int k"
          using outer by linarith
        then show ?thesis
        proof cases
          case lo
          then have "k = nat i" by simp
          with lo outer step unfold bounds True bnd show ?thesis by simp
        next
          case hi
          then have "k = nat j" by simp
          with hi outer step unfold bounds True bnd show ?thesis by simp
        next
          case out
          with True have "int k \<noteq> i" "int k \<noteq> j" by auto
          then have "k \<noteq> nat i" "k \<noteq> nat j" using bnd True by linarith+
          with out outer step unfold bounds show ?thesis by auto
        qed
      qed
    qed
  qed
qed

lemma reverse_loop_rev: "reverse_loop rns 0 (int (length rns) - 1) = rev rns"
proof (rule nth_equalityI)
  show "length (reverse_loop rns 0 (int (length rns) - 1)) = length (rev rns)"
    using reverse_loop_nth [of 0 "int (length rns) - 1" rns] by simp
next
  fix k assume "k < length (reverse_loop rns 0 (int (length rns) - 1))"
  then have k: "k < length rns"
    using reverse_loop_nth [of 0 "int (length rns) - 1" rns] by simp
  then have "nat (int (length rns) - 1 - int k) = length rns - Suc k"
    by auto
  with k reverse_loop_nth [of 0 "int (length rns) - 1" rns]
  show "reverse_loop rns 0 (int (length rns) - 1) ! k = rev rns ! k"
    by (simp add: rev_nth)
qed

lemma reflection_scan_filter:
  "reflection_scan parts randomID =
     (if filter (\<lambda>part. length part = 33) parts = [] then randomID
      else last (filter (\<lambda>part. length part = 33) parts))"
  by (induction parts arbitrary: randomID) auto

lemma runes_of_ascii:
  "\<forall>c \<in> set s. (of_char c :: nat) < 0x80 \<Longrightarrow> runes_of_string s = map of_char s"
  by (induction s) (auto simp: decode_rune_def)

lemma string_of_ascii_runes:
  "\<forall>c \<in> set s. (of_char c :: nat) < 0x80 \<Longrightarrow> string_of_runes (map of_char s) = s"
  by (induction s) (auto simp: string_of_runes_def encode_rune_def)

lemma reverse_ascii:
  assumes "\<forall>c \<in> set s. (of_char c :: nat) < 0x80"
  shows "string_of_runes (rev (runes_of_string s)) = rev s"
proof -
  from assms have "\<forall>c \<in> set (rev s). (of_char c :: nat) < 0x80" by simp
  then have "string_of_runes (map of_char (rev s)) = rev s"
    by (rule string_of_ascii_runes)
  with assms show ?thesis
    by (simp add: runes_of_ascii rev_map)
qed

text \<open>The scan of the logger keeps the last label of 33 bytes.\<close>

lemma logger_scan_none:
  "\<forall>p \<in> set rest. length p \<noteq> 33 \<Longrightarrow> logger_scan parts i rest ids = ids"
  by (induction rest arbitrary: i ids) (auto split: prod.splits)

lemma logger_scan_last:
  "i + length rest \<le> length parts \<Longrightarrow> j < length rest \<Longrightarrow> length (rest ! j) = 33 \<Longrightarrow>
   (\<forall>k. j < k \<and> k < length rest \<longrightarrow> length (rest ! k) \<noteq> 33) \<Longrightarrow>
   logger_scan parts i rest ids = (rest ! j, strings_Join (take (i + j + 1) parts) ''.'')"
proof (induction rest arbitrary: i j ids)
  case Nil
  then show ?case by simp
next
  case (Cons p ps)
  obtain u f where ids: "ids = (u, f)" by (cases ids)
  show ?case
  proof (cases j)
    case 0
    have "\<forall>q \<in> set ps. length q \<noteq> 33"
    proof
      fix q assume "q \<in> set ps"
      then obtain k where "k < length ps" "ps ! k = q" by (auto simp: in_set_conv_nth)
      with Cons.prems(4) [rule_format, of "Suc k"] 0 show "length q \<noteq> 33" by auto
    qed
    with Cons.prems 0 ids show ?thesis
      by (simp add: logger_scan_none)
  next
    case (Suc j')
    have later: "\<forall>k. j' < k \<and> k < length ps \<longrightarrow> length (ps ! k) \<noteq> 33"
    proof (intro allI impI)
      fix k assume "j' < k \<and> k < length ps"
      with Cons.prems(4) [rule_format, of "Suc k"] Suc show "length (ps ! k) \<noteq> 33" by auto
    qed
    from Cons.prems Suc have "Suc i + length ps \<le> length parts" "j' < length ps"
      "length (ps ! j') = 33" by auto
    from Cons.IH [OF this later] Suc ids show ?thesis
      by simp
  qed
qed

lemma logger_extract_last_index:
  assumes "i < length (strings_Split host)" and "length (strings_Split host ! i) = 33"
    and "\<forall>j. i < j \<and> j < length (strings_Split host) \<longrightarrow> length (strings_Split host ! j) \<noteq> 33"
  shows "logger_extract host =
           Inr (Some (take 20 (strings_Split host ! i), strings_Split host ! i,
                      strings_Join (take (Suc i) (strings_Split host)) ''.''))"
proof -
  let ?parts = "strings_Split host"
  have "logger_scan ?parts 0 ?parts ([], []) =
          (?parts ! i, strings_Join (take (0 + i + 1) ?parts) ''.'')"
    using assms by (intro logger_scan_last) auto
  moreover from assms(2) have "?parts ! i \<noteq> []" by auto
  ultimately show ?thesis
    using assms(2) by (simp add: logger_extract_def logger_ids_def slice_to_def Let_def)
qed

lemma logger_extract_no_label:
  assumes "\<forall>part \<in> set (strings_Split host). length part \<noteq> 33"
  shows "logger_ids host = ([], [])" and "logger_extract host = Inr None"
  using assms by (simp_all add: logger_extract_def logger_ids_def logger_scan_none Let_def)

lemma strings_Join_snoc:
  "strings_Join (ps @ [p]) sep = (if ps = [] then p else strings_Join ps sep @ sep @ p)"
  by (induction ps sep rule: strings_Join.induct) auto

lemma length_Join_take_Suc:
  "Suc n < length parts \<Longrightarrow>
   length (strings_Join (take (Suc n) parts) sep) < length (strings_Join (take (Suc (Suc n)) parts) sep)
     \<or> (sep = [] \<and> parts ! Suc n = [])"
  by (simp add: take_Suc_conv_app_nth [of "Suc n"] strings_Join_snoc) auto

lemma length_Join_take_mono:
  "i1 < i2 \<Longrightarrow> i2 < length parts \<Longrightarrow>
   length (strings_Join (take (Suc i1) parts) ''.'') < length (strings_Join (take (Suc i2) parts) ''.'')"
proof (induction i2)
  case 0
  then show ?case by simp
next
  case (Suc n)
  from Suc.prems have step: "length (strings_Join (take (Suc n) parts) ''.'')
      < length (strings_Join (take (Suc (Suc n)) parts) ''.'')"
    using length_Join_take_Suc [of n parts "''.''"] by simp
  show ?case
  proof (cases "i1 = n")
    case True
    with step show ?thesis by simp
  next
    case False
    with Suc.prems have "i1 < n" "n < length parts" by auto
    from Suc.IH [OF this] step show ?thesis by simp
  qed
qed

text \<open>
  C4, as amended. The scan does not stop at the first match: when a host has two or
  more labels of 33 bytes, the last of them (index \<open>i2\<close>, with an earlier one at
  \<open>i1\<close>) gives \<open>uniqueID\<close>, \<open>correlationID\<close> (its first 20 bytes) and \<open>fullID\<close> (the labels
  up to and including it, joined by dots), and this \<open>fullID\<close> is not the one the earlier
  label would give.
\<close>

theorem logger_extract_later_label_wins:
  assumes "i1 < i2" and "i2 < length (strings_Split host)"
    and "length (strings_Split host ! i1) = 33" and "length (strings_Split host ! i2) = 33"
    and "\<forall>j. i2 < j \<and> j < length (strings_Split host) \<longrightarrow> length (strings_Split host ! j) \<noteq> 33"
  shows "logger_extract host =
           Inr (Some (take 20 (strings_Split host ! i2), strings_Split host ! i2,
                      strings_Join (take (Suc i2) (strings_Split host)) ''.'')) \<and>
         strings_Join (take (Suc i2) (strings_Split host)) ''.''
           \<noteq> strings_Join (take (Suc i1) (strings_Split host)) ''.''"
proof
  show "logger_extract host =
           Inr (Some (take 20 (strings_Split host ! i2), strings_Split host ! i2,
                      strings_Join (take (Suc i2) (strings_Split host)) ''.''))"
    using assms(2,4,5) by (rule logger_extract_last_index)
next
  from length_Join_take_mono [OF assms(1,2)]
  show "strings_Join (take (Suc i2) (strings_Split host)) ''.''
           \<noteq> strings_Join (take (Suc i1) (strings_Split host)) ''.''"
    by auto
qed

text \<open>
  C5. When exactly one label of the host is 33 bytes long (index \<open>i\<close>), the logger
  finds it: \<open>correlationID\<close> is its first 20 bytes and \<open>fullID\<close> is the dot-joined
  sequence of the labels up to and including it. When no label is 33 bytes long,
  nothing is found and \<open>uniqueID\<close> and \<open>fullID\<close> are empty.
\<close>

theorem logger_extract_single_label:
  "(\<forall>i. i < length (strings_Split host) \<and> length (strings_Split host ! i) = 33 \<and>
        (\<forall>j < length (strings_Split host). length (strings_Split host ! j) = 33 \<longrightarrow> j = i) \<longrightarrow>
        logger_extract host =
          Inr (Some (take 20 (strings_Split host ! i), strings_Split host ! i,
                     strings_Join (take (Suc i) (strings_Split host)) ''.''))) \<and>
   ((\<forall>part \<in> set (strings_Split host). length part \<noteq> 33) \<longrightarrow>
        logger_ids host = ([], []) \<and> logger_extract host = Inr None)"
proof (intro conjI allI impI)
  fix i
  assume h: "i < length (strings_Split host) \<and> length (strings_Split host ! i) = 33 \<and>
        (\<forall>j < length (strings_Split host). length (strings_Split host ! j) = 33 \<longrightarrow> j = i)"
  then have "\<forall>j. i < j \<and> j < length (strings_Split host) \<longrightarrow> length (strings_Split host ! j) \<noteq> 33"
    by auto
  with h show "logger_extract host =
          Inr (Some (take 20 (strings_Split host ! i), strings_Split host ! i,
                     strings_Join (take (Suc i) (strings_Split host)) ''.''))"
    by (intro logger_extract_last_index) auto
qed (simp_all add: logger_extract_no_label)

text \<open>
  C6. When no label of the host is 33 bytes long, \<open>URLReflection\<close> returns the empty
  string. Otherwise it returns the last such label with its characters (the runes Go
  decodes from it) in reverse order; for a label of ASCII characters that is the label
  read backwards byte by byte.
\<close>

theorem URLReflection_last_label_reversed:
  "(filter (\<lambda>part. length part = 33) (strings_Split host) = [] \<longrightarrow> URLReflection host = []) \<and>
   (filter (\<lambda>part. length part = 33) (strings_Split host) \<noteq> [] \<longrightarrow>
      URLReflection host =
        string_of_runes (rev (runes_of_string
          (last (filter (\<lambda>part. length part = 33) (strings_Split host)))))) \<and>
   (filter (\<lambda>part. length part = 33) (strings_Split host) \<noteq> [] \<and>
    (\<forall>c \<in> set (last (filter (\<lambda>part. length part = 33) (strings_Split host))).
        (of_char c :: nat) < 0x80) \<longrightarrow>
      URLReflection host = rev (last (filter (\<lambda>part. length part = 33) (strings_Split host))))"
proof -
  let ?ls = "filter (\<lambda>part. length part = 33) (strings_Split host)"
  have nonempty: "last ?ls \<noteq> []" if "?ls \<noteq> []"
  proof -
    from that have "last ?ls \<in> set ?ls" by (rule last_in_set)
    then have "length (last ?ls) = 33" by simp
    then show ?thesis by auto
  qed
  have none: "URLReflection host = []" if "?ls = []"
    using that by (simp add: URLReflection_def reflection_scan_filter)
  have some: "URLReflection host = string_of_runes (rev (runes_of_string (last ?ls)))"
    if "?ls \<noteq> []"
    using that nonempty
    by (simp add: URLReflection_def reflection_scan_filter reverse_loop_rev Let_def)
  from none some show ?thesis
    by (auto simp: reverse_ascii)
qed

text \<open>Evaluations on concrete hosts.\<close>

lemma Split_two_labels:
  "strings_Split ''aaaaaaaaaaaaaaaaaaaaaaaaaaaaaaaaa.bbbbbbbbbbbbbbbbbbbbbbbbbbbbbbbbb.com'' = [''aaaaaaaaaaaaaaaaaaaaaaaaaaaaaaaaa'', ''bbbbbbbbbbbbbbbbbbbbbbbbbbbbbbbbb'', ''com'']"
  by simp

text \<open>
  C4 as the specification states it fails: of two labels of 33 bytes, the logger takes the second.
\<close>

theorem logger_extract_first_label_counterexample:
  "strings_Split ''aaaaaaaaaaaaaaaaaaaaaaaaaaaaaaaaa.bbbbbbbbbbbbbbbbbbbbbbbbbbbbbbbbb.com'' = [''aaaaaaaaaaaaaaaaaaaaaaaaaaaaaaaaa'', ''bbbbbbbbbbbbbbbbbbbbbbbbbbbbbbbbb'', ''com''] \<and>
   length ''aaaaaaaaaaaaaaaaaaaaaaaaaaaaaaaaa'' = 33 \<and>
   logger_extract ''aaaaaaaaaaaaaaaaaaaaaaaaaaaaaaaaa.bbbbbbbbbbbbbbbbbbbbbbbbbbbbbbbbb.com'' =
     Inr (Some (''bbbbbbbbbbbbbbbbbbbb'', ''bbbbbbbbbbbbbbbbbbbbbbbbbbbbbbbbb'', ''aaaaaaaaaaaaaaaaaaaaaaaaaaaaaaaaa.bbbbbbbbbbbbbbbbbbbbbbbbbbbbbbbbb''))"
  by (simp add: logger_extract_def logger_ids_def slice_to_def)

text \<open>The same host, through the theorem.\<close>

theorem logger_extract_later_label_wins_witness:
  "logger_extract ''aaaaaaaaaaaaaaaaaaaaaaaaaaaaaaaaa.bbbbbbbbbbbbbbbbbbbbbbbbbbbbbbbbb.com'' =
     Inr (Some (''bbbbbbbbbbbbbbbbbbbb'', ''bbbbbbbbbbbbbbbbbbbbbbbbbbbbbbbbb'', ''aaaaaaaaaaaaaaaaaaaaaaaaaaaaaaaaa.bbbbbbbbbbbbbbbbbbbbbbbbbbbbbbbbb''))"
proof -
  let ?host = "''aaaaaaaaaaaaaaaaaaaaaaaaaaaaaaaaa.bbbbbbbbbbbbbbbbbbbbbbbbbbbbbbbbb.com''"
  note sp = Split_two_labels
  have h: "(0::nat) < 1" "1 < length (strings_Split ?host)"
    "length (strings_Split ?host ! 0) = 33" "length (strings_Split ?host ! 1) = 33"
    "\<forall>j. 1 < j \<and> j < length (strings_Split ?host) \<longrightarrow> length (strings_Split ?host ! j) \<noteq> 33"
    unfolding sp by (auto simp: less_Suc_eq numeral_eq_Suc)
  from logger_extract_later_label_wins [OF h] show ?thesis
    unfolding sp by simp
qed

lemma Split_spec_example:
  "strings_Split ''x.AAAAAAAAAAAAAAAAAAAAAAAAAAAAAAAAA.example.com'' = [''x'', ''AAAAAAAAAAAAAAAAAAAAAAAAAAAAAAAAA'', ''example'', ''com'']"
  by simp

text \<open>The hosts of the specification's examples.\<close>

theorem logger_extract_single_label_witness:
  "logger_extract ''x.AAAAAAAAAAAAAAAAAAAAAAAAAAAAAAAAA.example.com'' =
     Inr (Some (''AAAAAAAAAAAAAAAAAAAA'', ''AAAAAAAAAAAAAAAAAAAAAAAAAAAAAAAAA'', ''x.AAAAAAAAAAAAAAAAAAAAAAAAAAAAAAAAA'')) \<and>
   logger_extract ''example.com'' = Inr None"
proof -
  let ?host = "''x.AAAAAAAAAAAAAAAAAAAAAAAAAAAAAAAAA.example.com''"
  note sp = Split_spec_example
  have one: "1 < length (strings_Split ?host) \<and> length (strings_Split ?host ! 1) = 33 \<and>
      (\<forall>j < length (strings_Split ?host). length (strings_Split ?host ! j) = 33 \<longrightarrow> j = 1)"
    unfolding sp by (auto simp: less_Suc_eq numeral_eq_Suc)
  from logger_extract_single_label [of ?host] one
  have "logger_extract ?host =
          Inr (Some (take 20 (strings_Split ?host ! 1), strings_Split ?host ! 1,
                     strings_Join (take (Suc 1) (strings_Split ?host)) ''.''))"
    by blast
  then have first: "logger_extract ?host = Inr (Some (''AAAAAAAAAAAAAAAAAAAA'', ''AAAAAAAAAAAAAAAAAAAAAAAAAAAAAAAAA'', ''x.AAAAAAAAAAAAAAAAAAAAAAAAAAAAAAAAA''))"
    unfolding sp by simp
  have "\<forall>part \<in> set (strings_Split ''example.com''). length part \<noteq> 33"
    by simp
  with logger_extract_single_label [of "''example.com''"]
  have "logger_extract ''example.com'' = Inr None"
    by blast
  with first show ?thesis by simp
qed

lemma Split_reflection_example:
  "strings_Split ''aaaaaaaaaaaaaaaaaaaaaaaaaaaaaaaaa.abcdefghijklmnopqrstuvwxyz0123456.com'' = [''aaaaaaaaaaaaaaaaaaaaaaaaaaaaaaaaa'', ''abcdefghijklmnopqrstuvwxyz0123456'', ''com'']"
  by simp

text \<open>A host with two labels of 33 bytes, and a host with none.\<close>

theorem URLReflection_last_label_reversed_witness:
  "URLReflection ''aaaaaaaaaaaaaaaaaaaaaaaaaaaaaaaaa.abcdefghijklmnopqrstuvwxyz0123456.com'' = ''6543210zyxwvutsrqponmlkjihgfedcba'' \<and>
   URLReflection ''example.com'' = []"
proof -
  let ?host = "''aaaaaaaaaaaaaaaaaaaaaaaaaaaaaaaaa.abcdefghijklmnopqrstuvwxyz0123456.com''"
  have ls: "filter (\<lambda>part. length part = 33) (strings_Split ?host) = [''aaaaaaaaaaaaaaaaaaaaaaaaaaaaaaaaa'', ''abcdefghijklmnopqrstuvwxyz0123456'']"
    unfolding Split_reflection_example by simp
  note th = URLReflection_last_label_reversed [of ?host, THEN conjunct2, THEN conjunct2, unfolded ls]
  have pre: "[''aaaaaaaaaaaaaaaaaaaaaaaaaaaaaaaaa'', ''abcdefghijklmnopqrstuvwxyz0123456''] \<noteq> [] \<and>
      (\<forall>c \<in> set (last [''aaaaaaaaaaaaaaaaaaaaaaaaaaaaaaaaa'', ''abcdefghijklmnopqrstuvwxyz0123456'']). (of_char c :: nat) < 0x80)"
    by simp
  from th pre have "URLReflection ?host = rev (last [''aaaaaaaaaaaaaaaaaaaaaaaaaaaaaaaaa'', ''abcdefghijklmnopqrstuvwxyz0123456''])"
    by (rule mp)
  then have first: "URLReflection ?host = ''6543210zyxwvutsrqponmlkjihgfedcba''"
    by simp
  have "filter (\<lambda>part. length part = 33) (strings_Split ''example.com'') = []"
    by simp
  with URLReflection_last_label_reversed [of "''example.com''"]
  have "URLReflection ''example.com'' = []"
    by blast
  with first show ?thesis by simp
qed

section \<open>Properties of the HTTP boundary\<close>

lemma authMiddleware_rejects:
  "Auth options \<Longrightarrow> Token options \<noteq> Header_Get (Header req) ''Authorization'' \<Longrightarrow>
   authMiddleware options next st w req = Inr (st, WriteHeader w 401)"
  by (simp add: authMiddleware_def checkToken_def)

lemma authMiddleware_open:
  "\<not> Auth options \<Longrightarrow> authMiddleware options next st w req = next st w req"
  by (simp add: authMiddleware_def checkToken_def)

lemma cors_headers_status: "wstatus (cors_headers options w) = wstatus w"
  by (simp add: cors_headers_def Header_Set_def)

text \<open>
  C10, as amended. On the routes /register, /deregister, /poll and /metrics: a request
  other than OPTIONS that arrives when \<open>Auth\<close> is set with an \<open>Authorization\<close> header
  different from the token is answered 401, the store is returned as it was and no
  handler runs; when \<open>Auth\<close> is not set, such a request reaches the handler of its
  route whatever its header. An OPTIONS request is answered 204 by the CORS middleware
  before the gate, and leaves the store as it was.
\<close>

theorem auth_gate:
  assumes "Path req \<in> {''/register'', ''/deregister'', ''/poll'', ''/metrics''}"
  shows "(Method req \<noteq> ''OPTIONS'' \<and> Auth options \<and>
          Token options \<noteq> Header_Get (Header req) ''Authorization'' \<longrightarrow>
            router options hs st new_writer req
              = Inr (st, WriteHeader (cors_headers options new_writer) 401) \<and>
            response_status (WriteHeader (cors_headers options new_writer) 401) = 401) \<and>
         (Method req \<noteq> ''OPTIONS'' \<and> \<not> Auth options \<longrightarrow>
            router options hs st w req =
              (if Path req = ''/register'' then registerHandler hs
               else if Path req = ''/deregister'' then deregisterHandler hs
               else if Path req = ''/poll'' then pollHandler hs
               else metricsHandler hs) st (cors_headers options w) req) \<and>
         (Method req = ''OPTIONS'' \<longrightarrow>
            router options hs st new_writer req
              = Inr (st, WriteHeader (cors_headers options new_writer) 204) \<and>
            response_status (WriteHeader (cors_headers options new_writer) 204) = 204)"
  using assms
  by (auto simp: router_def corsMiddleware_def authMiddleware_rejects authMiddleware_open
      response_status_def WriteHeader_def cors_headers_status new_writer_def)

text \<open>
  A POST to /register with a wrong token: refused when \<open>Auth\<close> is set, and handled (the
  example handler registers the session) when it is not.
\<close>

theorem auth_gate_witness:
  "map_sum id (\<lambda>(st, w). (st, response_status w))
     (router \<lparr>Domain = ''example.com'', Auth = True, Token = ''secret'', RootTLD = False,
              OriginURL = ''*''\<rparr>
        example_handlers (New 60) new_writer
        \<lparr>Method = ''POST'', Path = ''/register'',
         Header = [''Authorization'' \<mapsto> ''guess'', ''Session'' \<mapsto> ''c5b0n3k2vtc0000a1b2c'']\<rparr>)
     = Inr (New 60, 401) \<and>
   map_sum id (\<lambda>(st, w). (cache st ''c5b0n3k2vtc0000a1b2c'' \<noteq> None, response_status w))
     (router \<lparr>Domain = ''example.com'', Auth = False, Token = ''secret'', RootTLD = False,
              OriginURL = ''*''\<rparr>
        example_handlers (New 60) new_writer
        \<lparr>Method = ''POST'', Path = ''/register'',
         Header = [''Authorization'' \<mapsto> ''guess'', ''Session'' \<mapsto> ''c5b0n3k2vtc0000a1b2c'']\<rparr>)
     = Inr (True, 200)"
proof -
  let ?req = "\<lparr>Method = ''POST'', Path = ''/register'',
         Header = [''Authorization'' \<mapsto> ''guess'', ''Session'' \<mapsto> ''c5b0n3k2vtc0000a1b2c'']\<rparr>"
  let ?closed = "\<lparr>Domain = ''example.com'', Auth = True, Token = ''secret'', RootTLD = False,
              OriginURL = ''*''\<rparr>"
  let ?opened = "\<lparr>Domain = ''example.com'', Auth = False, Token = ''secret'', RootTLD = False,
              OriginURL = ''*''\<rparr>"
  have path: "Path ?req \<in> {''/register'', ''/deregister'', ''/poll'', ''/metrics''}"
    by simp
  have bad: "Method ?req \<noteq> ''OPTIONS'' \<and> Auth ?closed \<and>
      Token ?closed \<noteq> Header_Get (Header ?req) ''Authorization''"
    by (simp add: Header_Get_def)
  have "router ?closed example_handlers (New 60) new_writer ?req
          = Inr (New 60, WriteHeader (cors_headers ?closed new_writer) 401) \<and>
        response_status (WriteHeader (cors_headers ?closed new_writer) 401) = 401"
    using auth_gate [OF path, of ?closed example_handlers "New 60"] bad by blast
  then have first: "map_sum id (\<lambda>(st, w). (st, response_status w))
      (router ?closed example_handlers (New 60) new_writer ?req) = Inr (New 60, 401)"
    by simp
  have free: "Method ?req \<noteq> ''OPTIONS'' \<and> \<not> Auth ?opened"
    by simp
  have "router ?opened example_handlers (New 60) new_writer ?req =
      (if Path ?req = ''/register'' then registerHandler example_handlers
       else if Path ?req = ''/deregister'' then deregisterHandler example_handlers
       else if Path ?req = ''/poll'' then pollHandler example_handlers
       else metricsHandler example_handlers) (New 60) (cors_headers ?opened new_writer) ?req"
    using auth_gate [OF path, of ?opened example_handlers "New 60" new_writer] free by blast
  then have "map_sum id (\<lambda>(st, w). (cache st ''c5b0n3k2vtc0000a1b2c'' \<noteq> None, response_status w))
      (router ?opened example_handlers (New 60) new_writer ?req) = Inr (True, 200)"
    by (simp add: example_handlers_def example_handler_def SetIDPublicKey_def New_def
        Header_Get_def response_status_def WriteHeader_def cors_headers_status new_writer_def)
  with first show ?thesis by simp
qed

text \<open>
  C10 as the specification states it fails: with \<open>Auth\<close> set and no \<open>Authorization\<close> header, an OPTIONS
  request to /register is answered 204, not 401.
\<close>

theorem auth_gate_options_counterexample:
  "Auth \<lparr>Domain = ''example.com'', Auth = True, Token = ''secret'', RootTLD = False,
         OriginURL = ''*''\<rparr> \<and>
   Token \<lparr>Domain = ''example.com'', Auth = True, Token = ''secret'', RootTLD = False,
          OriginURL = ''*''\<rparr>
     \<noteq> Header_Get (Header \<lparr>Method = ''OPTIONS'', Path = ''/register'', Header = Map.empty\<rparr>)
          ''Authorization'' \<and>
   map_sum id (\<lambda>(st, w). (st, response_status w))
     (router \<lparr>Domain = ''example.com'', Auth = True, Token = ''secret'', RootTLD = False,
              OriginURL = ''*''\<rparr>
        example_handlers (New 60) new_writer
        \<lparr>Method = ''OPTIONS'', Path = ''/register'', Header = Map.empty\<rparr>) = Inr (New 60, 204)"
  by (simp add: router_def corsMiddleware_def response_status_def WriteHeader_def
      cors_headers_status new_writer_def Header_Get_def)

end
